theory Spec2Isabelle
  imports Complex_Main "HOL-Library.Log_Nat"
begin

section \<open>JavaScript numbers used by the views\<close>

text \<open>
  Progress values and targets are whole numbers (the slider moves in steps of 1 and the
  target field is read with \<open>parseInt\<close>), so they are modelled as \<open>int\<close>; the numbers of
  this size that occur are doubles themselves (every whole number up to \<open>2 ^ 53\<close> is).
  A finite double is the rational it denotes (the sign of zero is not kept); the
  non-finite numbers are constructors of their own.
\<close>

datatype 'a jsnum = Num 'a | PosInfinity | NegInfinity | NaN

subsection \<open>IEEE 754 double precision\<close>

text \<open>
  The quotient and the product of two doubles are the exact results rounded to the
  nearest double, a tie going to the even significand. \<open>ilog2 x\<close> is the binary exponent
  of a rational \<open>x\<close> that is not zero, the \<open>e\<close> with \<open>2 ^ e \<le> |x| < 2 ^ (e + 1)\<close>.
\<close>

definition ilog2 :: "rat \<Rightarrow> int" where
  "ilog2 x =
     (case quotient_of \<bar>x\<bar> of (n, d) \<Rightarrow>
        let k = bitlen n - bitlen d in if 2 powi k \<le> \<bar>x\<bar> then k else k - 1)"

definition roundTiesToEven :: "rat \<Rightarrow> int" where
  "roundTiesToEven y =
     (let f = \<lfloor>y\<rfloor>; r = y - of_int f
      in if r < 1 / 2 then f else if 1 / 2 < r then f + 1 else if even f then f else f + 1)"

text \<open>
  Doubles have 53 significant bits, so between \<open>2 ^ e\<close> and \<open>2 ^ (e + 1)\<close> they are
  \<open>2 ^ (e - 52)\<close> apart; below \<open>2 ^ - 1022\<close> (the subnormal numbers) the spacing stays
  \<open>2 ^ - 1074\<close>. A result that rounds to \<open>2 ^ 1024\<close> or beyond is an infinity.
\<close>

definition binary64 :: "rat \<Rightarrow> rat jsnum" where
  "binary64 x =
     (if x = 0 then Num 0
      else
        let e = max (ilog2 x) (- 1022);
            ulp = 2 powi (e - 52);
            r = of_int (roundTiesToEven (x / ulp)) * ulp
        in if 2 powi 1024 \<le> r then PosInfinity
           else if r \<le> - (2 powi 1024) then NegInfinity
           else Num r)"

text \<open>The operator \<open>/\<close> on two whole numbers: a zero divisor gives an infinity, or NaN for 0/0.\<close>

definition js_divide :: "int \<Rightarrow> int \<Rightarrow> rat jsnum" where
  "js_divide a b =
     (if b = 0
      then (if a = 0 then NaN else if 0 < a then PosInfinity else NegInfinity)
      else binary64 (of_int a / of_int b))"

text \<open>The operator \<open>*\<close> on a number and a finite constant.\<close>

definition js_times :: "rat jsnum \<Rightarrow> rat \<Rightarrow> rat jsnum" where
  "js_times x c =
     (case x of
        Num r \<Rightarrow> binary64 (r * c)
      | PosInfinity \<Rightarrow> if 0 < c then PosInfinity else if c < 0 then NegInfinity else NaN
      | NegInfinity \<Rightarrow> if 0 < c then NegInfinity else if c < 0 then PosInfinity else NaN
      | NaN \<Rightarrow> NaN)"


text \<open>
  \<open>Math.round\<close>: the nearest integer, a half rounded towards plus infinity; an infinity
  and NaN are returned as they are.
\<close>

definition Math_round :: "rat \<Rightarrow> int" where
  "Math_round x = \<lfloor>x + 1 / 2\<rfloor>"

definition Math_round_num :: "rat jsnum \<Rightarrow> int jsnum" where
  "Math_round_num x =
     (case x of
        Num r \<Rightarrow> Num (Math_round r)
      | PosInfinity \<Rightarrow> PosInfinity
      | NegInfinity \<Rightarrow> NegInfinity
      | NaN \<Rightarrow> NaN)"

text \<open>\<open>Math.max(...xs)\<close>: starts from minus infinity and keeps the larger value.\<close>

definition Math_max :: "int list \<Rightarrow> int jsnum" where
  "Math_max xs =
     fold (\<lambda>x acc. case acc of
                       Num m \<Rightarrow> Num (max m x)
                     | NegInfinity \<Rightarrow> Num x
                     | PosInfinity \<Rightarrow> PosInfinity
                     | NaN \<Rightarrow> NaN) xs NegInfinity"

section \<open>Calendar days and the date-fns functions the views call\<close>

text \<open>
  The views only use dates at the granularity of a calendar day, so a date is the number
  of days since 1 January 1970 in the user's calendar (the time of day is dropped). The
  functions below follow what date-fns does to such a day.
\<close>

type_synonym date = int

text \<open>\<open>Date.getDay\<close>: 0 is Sunday, 6 is Saturday; 1 January 1970 was a Thursday.\<close>

definition getDay :: "date \<Rightarrow> int" where
  "getDay d = (d + 4) mod 7"

definition subWeeks :: "date \<Rightarrow> int \<Rightarrow> date" where
  "subWeeks d amount = d - amount * 7"

definition startOfWeek :: "date \<Rightarrow> int \<Rightarrow> date" where
  "startOfWeek d weekStartsOn =
     (let dy = getDay d;
          diff = (if dy < weekStartsOn then 7 else 0) + dy - weekStartsOn
      in d - diff)"

definition endOfWeek :: "date \<Rightarrow> int \<Rightarrow> date" where
  "endOfWeek d weekStartsOn =
     (let dy = getDay d;
          diff = (if dy < weekStartsOn then - 7 else 0) + 6 - (dy - weekStartsOn)
      in d + diff)"

text \<open>
  \<open>eachDayOfInterval\<close> lists the days from start to end; an interval whose end lies
  before its start is the library's \<open>RangeError\<close>, here \<open>None\<close>.
\<close>

definition eachDayOfInterval :: "date \<Rightarrow> date \<Rightarrow> date list option" where
  "eachDayOfInterval start end = (if end < start then None else Some [start..end])"

subsection \<open>Formatting a day\<close>

text \<open>Year, month and day of the month of a day number (proleptic Gregorian calendar).\<close>

definition civil :: "date \<Rightarrow> int \<times> int \<times> int" where
  "civil z0 =
     (let z = z0 + 719468;
          era = z div 146097;
          doe = z mod 146097;
          yoe = (doe - doe div 1460 + doe div 36524 - doe div 146096) div 365;
          doy = doe - (365 * yoe + yoe div 4 - yoe div 100);
          mp = (5 * doy + 2) div 153;
          dd = doy - (153 * mp + 2) div 5 + 1;
          mm = (if mp < 10 then mp + 3 else mp - 9);
          yy = yoe + era * 400 + (if mm \<le> 2 then 1 else 0)
      in (yy, mm, dd))"

definition digit :: "nat \<Rightarrow> char" where
  "digit n = ''0123456789'' ! n"

fun toString :: "nat \<Rightarrow> string" where
  "toString n = (if n < 10 then [digit n] else toString (n div 10) @ [digit (n mod 10)])"

declare toString.simps [simp del]

text \<open>\<open>addLeadingZeros\<close>: the decimal digits, padded with zeros on the left.\<close>

definition addLeadingZeros :: "nat \<Rightarrow> nat \<Rightarrow> string" where
  "addLeadingZeros n targetLength =
     (let s = toString n in replicate (targetLength - length s) CHR ''0'' @ s)"

text \<open>The token \<open>yyyy\<close> prints the year of the era: year 0 and below count from 1 BC.\<close>

definition format_yyyy :: "int \<Rightarrow> string" where
  "format_yyyy y = addLeadingZeros (nat (if 0 < y then y else 1 - y)) 4"

text \<open>\<open>format(d, 'yyyy-MM-dd')\<close>\<close>

definition format_ymd :: "date \<Rightarrow> string" where
  "format_ymd d =
     (case civil d of (y, m, dd) \<Rightarrow>
        format_yyyy y @ ''-'' @ addLeadingZeros (nat m) 2 @ ''-'' @ addLeadingZeros (nat dd) 2)"

text \<open>\<open>format(d, 'EEE')\<close>\<close>

definition format_EEE :: "date \<Rightarrow> string" where
  "format_EEE d = [''Sun'', ''Mon'', ''Tue'', ''Wed'', ''Thu'', ''Fri'', ''Sat''] ! nat (getDay d)"

text \<open>\<open>format(d, 'MMM dd')\<close>\<close>

definition format_MMM_dd :: "date \<Rightarrow> string" where
  "format_MMM_dd d =
     (case civil d of (y, m, dd) \<Rightarrow>
        [''Jan'', ''Feb'', ''Mar'', ''Apr'', ''May'', ''Jun'',
         ''Jul'', ''Aug'', ''Sep'', ''Oct'', ''Nov'', ''Dec''] ! nat (m - 1)
        @ '' '' @ addLeadingZeros (nat dd) 2)"

section \<open>Records of the remote API, requests and notifications\<close>

text \<open>
  The objects the server returns. A field named \<open>id\<close> or \<open>date\<close> in the source carries
  the name of its record here, since several records have one.
\<close>

record journal_entry =
  id_entry :: string
  date_entry :: string
  content :: string

record life_task =
  id_task :: string
  name :: string
  description :: string
  category :: string
  target_value :: int

record progress_entry =
  task_id :: string
  date_progress :: string
  progress_value :: int

text \<open>
  A call through axios is recorded with its path below the base URL \<open>API\<close> and its
  body. The answer of the server is an input of the handler that awaits it:
  \<open>Resolved\<close> with the data of the response, or \<open>Rejected\<close> with the status of
  \<open>error.response\<close> when there is one.
\<close>

datatype body =
    JournalCreate string string
  | JournalUpdate string
  | ProgressUpsert string string int

datatype request =
    GET string
  | POST string body
  | PUT string body
  | DELETE string

datatype 'a response = Resolved 'a | Rejected "nat option"

datatype notice =
    toast_error string
  | toast_success string
  | console_error string

text \<open>
  What a handler leaves behind once every call it made has settled: the state of the
  component, the requests it issued and the notifications it raised, both in order.
\<close>

record 's outcome =
  state :: 's
  requests :: "request list"
  notices :: "notice list"

definition settled :: "'s \<Rightarrow> 's outcome" where
  "settled s = \<lparr>state = s, requests = [], notices = []\<rparr>"

definition and_then :: "'s outcome \<Rightarrow> ('s \<Rightarrow> 's outcome) \<Rightarrow> 's outcome" where
  "and_then r f =
     (let r' = f (state r)
      in \<lparr>state = state r', requests = requests r @ requests r',
          notices = notices r @ notices r'\<rparr>)"

subsection \<open>Strings\<close>

text \<open>
  \<open>String.prototype.trim\<close> removes white space and line terminators from both ends.
  A character is a code unit below 256; the white space among those is listed.
\<close>

definition isWhiteSpace :: "char \<Rightarrow> bool" where
  "isWhiteSpace c = (of_char c \<in> {9, 10, 11, 12, 13, 32, 160 :: nat})"

definition trim :: "string \<Rightarrow> string" where
  "trim s = rev (dropWhile isWhiteSpace (rev (dropWhile isWhiteSpace s)))"

section \<open>WeeklyProgress.jsx\<close>

subsection \<open>One day of the weekly series, and the statistics over it\<close>

record day_data =
  day :: string
  date :: string
  progress :: int
  percentage :: "int jsnum"
  fullDate :: string

record week_stats =
  total :: int
  average :: int
  best :: "int jsnum"
  daysActive :: nat

text \<open>
  \<open>getWeekStats\<close>, on the list held in \<open>weeklyData\<close>. The quotient of the total by 7
  is taken exactly: for a total from 0 up to \<open>2 ^ 52\<close> the double quotient rounds to
  the same integer (\<open>average_double_quotient\<close> below).
\<close>

definition getWeekStats :: "day_data list \<Rightarrow> week_stats" where
  "getWeekStats weeklyData =
     (if length weeklyData = 0
      then \<lparr>total = 0, average = 0, best = Num 0, daysActive = 0\<rparr>
      else
        let total' = fold (\<lambda>d sum. sum + progress d) weeklyData 0;
            daysActive' = length (filter (\<lambda>d. progress d > 0) weeklyData);
            average' = (if daysActive' > 0 then Math_round (of_int total' / 7) else 0);
            best' = Math_max (map progress weeklyData)
        in \<lparr>total = total', average = average', best = best', daysActive = daysActive'\<rparr>)"

text \<open>A week whose days carry the given progress values (labels left empty).\<close>

definition week_of :: "int list \<Rightarrow> day_data list" where
  "week_of ps =
     map (\<lambda>p. \<lparr>day = [], date = [], progress = p, percentage = Num 0, fullDate = []\<rparr>) ps"

subsection \<open>The state of the view and the weekly series of a task\<close>

text \<open>
  The state variables of the component; \<open>tasks\<close>, \<open>selectedTask\<close> and \<open>loading\<close>
  carry the suffix \<open>wp\<close>, other views having variables of the same names. No task
  selected is the empty string.
\<close>

record weekly_progress =
  tasks_wp :: "life_task list"
  selectedTask_wp :: string
  weeklyData :: "day_data list"
  loading_wp :: bool
  selectedWeek :: int
  chartType :: string

text \<open>
  \<open>fetchWeeklyProgress\<close>, given the day the clock shows and the answer to the request
  for the progress history of the selected task. The target of the selected task is
  \<open>task?.target_value || 100\<close>, so it is never 0.
\<close>

definition fetchWeeklyProgress ::
  "date \<Rightarrow> progress_entry list response \<Rightarrow> weekly_progress \<Rightarrow> weekly_progress outcome" where
  "fetchWeeklyProgress today resp st =
     (if selectedTask_wp st = [] then settled st
      else
        let targetWeek = subWeeks today (selectedWeek st);
            weekStart = startOfWeek targetWeek 1;
            weekEnd = endOfWeek targetWeek 1;
            failed = [console_error ''Failed to fetch weekly progress:'',
                      toast_error ''Failed to load weekly progress'']
        in case eachDayOfInterval weekStart weekEnd of
             None \<Rightarrow>
               \<lparr>state = st\<lparr>loading_wp := False\<rparr>, requests = [], notices = failed\<rparr>
           | Some weekDays \<Rightarrow>
               (case resp of
                  Rejected status \<Rightarrow>
                    \<lparr>state = st\<lparr>loading_wp := False\<rparr>,
                     requests = [GET (''/progress-entries/'' @ selectedTask_wp st)],
                     notices = failed\<rparr>
                | Resolved progressEntries \<Rightarrow>
                    let task = find (\<lambda>t. id_task t = selectedTask_wp st) (tasks_wp st);
                        targetValue =
                          (case task of
                             None \<Rightarrow> 100
                           | Some t \<Rightarrow> if target_value t = 0 then 100 else target_value t);
                        weeklyProgressData =
                          map (\<lambda>d.
                                let dateStr = format_ymd d;
                                    dayName = format_EEE d;
                                    entry = find (\<lambda>e. date_progress e = dateStr) progressEntries
                                in \<lparr>day = dayName,
                                    date = dateStr,
                                    progress = (case entry of
                                                  Some e \<Rightarrow> progress_value e
                                                | None \<Rightarrow> 0),
                                    percentage = (case entry of
                                                    Some e \<Rightarrow>
                                                      Math_round_num
                                                        (js_times
                                                           (js_divide (progress_value e)
                                                              targetValue) 100)
                                                  | None \<Rightarrow> Num 0),
                                    fullDate = format_MMM_dd d\<rparr>)
                              weekDays
                    in \<lparr>state = st\<lparr>weeklyData := weeklyProgressData, loading_wp := False\<rparr>,
                        requests = [GET (''/progress-entries/'' @ selectedTask_wp st)],
                        notices = []\<rparr>))"

text \<open>
  An example: the task Read with target 50 is selected, the week before the current one
  is shown, and the history of the task has an entry in that week and one outside it.
\<close>

definition example_view :: weekly_progress where
  "example_view =
     \<lparr>tasks_wp = [\<lparr>id_task = ''t1'', name = ''Read'', description = [],
                   category = ''General'', target_value = 50\<rparr>],
      selectedTask_wp = ''t1'', weeklyData = [], loading_wp = False,
      selectedWeek = 1, chartType = ''bar''\<rparr>"

definition example_history :: "progress_entry list" where
  "example_history =
     [\<lparr>task_id = ''t1'', date_progress = ''2026-10-28'', progress_value = 30\<rparr>,
      \<lparr>task_id = ''t1'', date_progress = ''2026-11-03'', progress_value = 7\<rparr>]"

section \<open>Journal.jsx: the journal view\<close>

text \<open>
  The state variables of the component. The view formats \<open>selectedDate\<close> whenever it
  renders, so a handler always runs with a day selected. \<open>loading\<close> carries the suffix
  \<open>j\<close>, other views having a variable of that name.
\<close>

record journal =
  selectedDate :: date
  journalContent :: string
  isEditing :: bool
  entries :: "journal_entry list"
  loading_j :: bool
  hasEntry :: bool

text \<open>
  Each handler is given the answers of the server to the calls it awaits and returns
  the state once these have settled, with the requests issued and the notifications
  raised. A handler that sets \<open>loading\<close> on entry resets it in its \<open>finally\<close> block.
\<close>

definition fetchJournalEntries :: "journal_entry list response \<Rightarrow> journal \<Rightarrow> journal outcome" where
  "fetchJournalEntries resp st =
     (case resp of
        Resolved dat \<Rightarrow>
          \<lparr>state = st\<lparr>entries := dat\<rparr>, requests = [GET ''/journal-entries''], notices = []\<rparr>
      | Rejected status \<Rightarrow>
          \<lparr>state = st, requests = [GET ''/journal-entries''],
           notices = [console_error ''Failed to fetch journal entries:'',
                      toast_error ''Failed to load journal entries'']\<rparr>)"

text \<open>
  The data of a successful answer for one date is an entry, or nothing (a body that is
  not truthy).
\<close>

definition fetchJournalEntryByDate ::
  "journal_entry option response \<Rightarrow> date \<Rightarrow> journal \<Rightarrow> journal outcome" where
  "fetchJournalEntryByDate resp d st =
     (let formattedDate = format_ymd d;
          req = GET (''/journal-entries/'' @ formattedDate)
      in case resp of
           Resolved (Some e) \<Rightarrow>
             \<lparr>state = st\<lparr>journalContent := content e, hasEntry := True, isEditing := False,
                          loading_j := False\<rparr>,
              requests = [req], notices = []\<rparr>
         | Resolved None \<Rightarrow>
             \<lparr>state = st\<lparr>journalContent := [], hasEntry := False, isEditing := True,
                          loading_j := False\<rparr>,
              requests = [req], notices = []\<rparr>
         | Rejected status \<Rightarrow>
             if status = Some 404
             then \<lparr>state = st\<lparr>journalContent := [], hasEntry := False, isEditing := True,
                               loading_j := False\<rparr>,
                   requests = [req], notices = []\<rparr>
             else \<lparr>state = st\<lparr>loading_j := False\<rparr>, requests = [req],
                   notices = [console_error ''Failed to fetch journal entry:'',
                              toast_error ''Failed to load journal entry'']\<rparr>)"

text \<open>
  \<open>saveJournalEntry\<close>, given the answer to the PUT or POST and the answer to the
  refresh of the entry list that follows a successful save.
\<close>

definition saveJournalEntry ::
  "unit response \<Rightarrow> journal_entry list response \<Rightarrow> journal \<Rightarrow> journal outcome" where
  "saveJournalEntry saved listed st =
     (if trim (journalContent st) = []
      then \<lparr>state = st, requests = [],
            notices = [toast_error ''Journal entry cannot be empty'']\<rparr>
      else
        let formattedDate = format_ymd (selectedDate st);
            failed = [console_error ''Failed to save journal entry:'',
                      toast_error ''Failed to save journal entry'']
        in if hasEntry st
           then
             (let req = PUT (''/journal-entries/'' @ formattedDate)
                          (JournalUpdate (journalContent st))
              in case saved of
                   Rejected status \<Rightarrow>
                     \<lparr>state = st\<lparr>loading_j := False\<rparr>, requests = [req], notices = failed\<rparr>
                 | Resolved u \<Rightarrow>
                     and_then
                       (and_then
                          \<lparr>state = st\<lparr>isEditing := False\<rparr>, requests = [req],
                           notices = [toast_success ''Journal entry updated successfully'']\<rparr>
                          (fetchJournalEntries listed))
                       (\<lambda>s. settled (s\<lparr>loading_j := False\<rparr>)))
           else
             (let req = POST ''/journal-entries''
                          (JournalCreate formattedDate (journalContent st))
              in case saved of
                   Rejected status \<Rightarrow>
                     \<lparr>state = st\<lparr>loading_j := False\<rparr>, requests = [req], notices = failed\<rparr>
                 | Resolved u \<Rightarrow>
                     and_then
                       (and_then
                          \<lparr>state = st\<lparr>hasEntry := True, isEditing := False\<rparr>,
                           requests = [req],
                           notices = [toast_success ''Journal entry created successfully'']\<rparr>
                          (fetchJournalEntries listed))
                       (\<lambda>s. settled (s\<lparr>loading_j := False\<rparr>))))"

text \<open>
  \<open>deleteJournalEntry\<close>, given the user's answer to the confirmation dialog, the answer
  to the DELETE and the answer to the refresh of the entry list.
\<close>

definition deleteJournalEntry ::
  "bool \<Rightarrow> unit response \<Rightarrow> journal_entry list response \<Rightarrow> journal \<Rightarrow> journal outcome" where
  "deleteJournalEntry confirmed deleted listed st =
     (if \<not> hasEntry st then settled st
      else if \<not> confirmed then settled st
      else
        let formattedDate = format_ymd (selectedDate st);
            req = DELETE (''/journal-entries/'' @ formattedDate)
        in case deleted of
             Rejected status \<Rightarrow>
               \<lparr>state = st\<lparr>loading_j := False\<rparr>, requests = [req],
                notices = [console_error ''Failed to delete journal entry:'',
                           toast_error ''Failed to delete journal entry'']\<rparr>
           | Resolved u \<Rightarrow>
               and_then
                 (and_then
                    \<lparr>state = st\<lparr>journalContent := [], hasEntry := False, isEditing := True\<rparr>,
                     requests = [req],
                     notices = [toast_success ''Journal entry deleted successfully'']\<rparr>
                    (fetchJournalEntries listed))
                 (\<lambda>s. settled (s\<lparr>loading_j := False\<rparr>)))"

text \<open>Examples: a day with no entry and text typed, and a day with a saved entry.\<close>

definition example_draft :: journal where
  "example_draft =
     \<lparr>selectedDate = 20760, journalContent = ''A quiet day.'', isEditing = True,
      entries = [], loading_j = False, hasEntry = False\<rparr>"

definition example_entry :: journal_entry where
  "example_entry = \<lparr>id_entry = ''e1'', date_entry = ''2026-11-03'', content = ''A quiet day.''\<rparr>"

definition example_saved :: journal where
  "example_saved =
     \<lparr>selectedDate = 20760, journalContent = ''A quiet day.'', isEditing = False,
      entries = [example_entry], loading_j = False, hasEntry = True\<rparr>"

text \<open>A day on which only white space has been typed.\<close>

definition example_blank :: journal where
  "example_blank =
     \<lparr>selectedDate = 20760, journalContent = [CHR '' '', CHR 0x0A, CHR 0x09, CHR '' ''],
      isEditing = True, entries = [], loading_j = False, hasEntry = False\<rparr>"

section \<open>The life tracker view (the second component of Journal.jsx)\<close>

text \<open>
  The state variables the handlers below read or write: the task list, the loading flag
  and the map from task id to today's progress value (a JavaScript object, so its keys
  are strings). The dialog state (\<open>selectedTask\<close>, \<open>isAddingTask\<close>, \<open>taskForm\<close>) and the
  unused \<open>progressEntries\<close> are not touched by them. \<open>tasks\<close> and \<open>loading\<close> carry the
  suffix \<open>lt\<close>.
\<close>

record life_tracker =
  tasks_lt :: "life_task list"
  loading_lt :: bool
  todayProgress :: "string \<rightharpoonup> int"

text \<open>
  \<open>fetchTodayProgress\<close>, given the day the clock shows and, for each position of the
  task list, the answer to the request made for the task at that position. Every
  promise of the list catches its own failure, so \<open>Promise.all\<close> resolves with one
  result per task and the state is set once, from all of them.
\<close>

definition fetchTodayProgress ::
  "date \<Rightarrow> (nat \<Rightarrow> progress_entry list response) \<Rightarrow> life_tracker \<Rightarrow> life_tracker outcome" where
  "fetchTodayProgress now resp st =
     (let today = format_ymd now;
          results =
            map (\<lambda>(i, task).
                   case resp i of
                     Resolved dat \<Rightarrow>
                       (case find (\<lambda>entry. date_progress entry = today) dat of
                          Some todayEntry \<Rightarrow> (id_task task, progress_value todayEntry)
                        | None \<Rightarrow> (id_task task, 0))
                   | Rejected status \<Rightarrow> (id_task task, 0))
              (enumerate 0 (tasks_lt st));
          progressMap = fold (\<lambda>(taskId, p) m. m(taskId \<mapsto> p)) results Map.empty
      in \<lparr>state = st\<lparr>todayProgress := progressMap\<rparr>,
          requests = map (\<lambda>task. GET (''/progress-entries/'' @ id_task task)) (tasks_lt st),
          notices = []\<rparr>)"

text \<open>
  \<open>updateProgress\<close>, called by the slider with a task id and a value, given the day the
  clock shows and the answer to the POST.
\<close>

definition updateProgress ::
  "date \<Rightarrow> unit response \<Rightarrow> string \<Rightarrow> int \<Rightarrow> life_tracker \<Rightarrow> life_tracker outcome" where
  "updateProgress now posted taskId progressValue st =
     (let today = format_ymd now;
          req = POST ''/progress-entries'' (ProgressUpsert taskId today progressValue)
      in case posted of
           Resolved u \<Rightarrow>
             \<lparr>state = st\<lparr>todayProgress := (todayProgress st)(taskId \<mapsto> progressValue)\<rparr>,
              requests = [req], notices = [toast_success ''Progress updated'']\<rparr>
         | Rejected status \<Rightarrow>
             \<lparr>state = st, requests = [req],
              notices = [console_error ''Failed to update progress:'',
                         toast_error ''Failed to update progress'']\<rparr>)"

subsection \<open>The progress bar of a task card\<close>




text \<open>Examples: two tasks, and a state in which the first has a value for today.\<close>

definition example_read :: life_task where
  "example_read =
     \<lparr>id_task = ''t1'', name = ''Read'', description = [], category = ''General'',
      target_value = 50\<rparr>"

definition example_run :: life_task where
  "example_run =
     \<lparr>id_task = ''t2'', name = ''Run'', description = [], category = ''Health'',
      target_value = 10\<rparr>"

definition example_tracker :: life_tracker where
  "example_tracker =
     \<lparr>tasks_lt = [example_read, example_run], loading_lt = False,
      todayProgress = [''t1'' \<mapsto> 10]\<rparr>"

text \<open>The answers of the server in the example: a history for the first task, a failure for the second.\<close>

definition example_answers :: "nat \<Rightarrow> progress_entry list response" where
  "example_answers i =
     (if i = 0
      then Resolved [\<lparr>task_id = ''t1'', date_progress = ''2026-11-02'', progress_value = 12\<rparr>,
                     \<lparr>task_id = ''t1'', date_progress = ''2026-11-03'', progress_value = 30\<rparr>]
      else Rejected (Some 500))"

section \<open>Properties of the weekly statistics\<close>

subsection \<open>Auxiliary facts\<close>

lemma Math_round_round: "Math_round x = round x"
  by (simp add: Math_round_def round_def)

lemma Math_round_div:
  assumes "0 < d"
  shows "Math_round (of_int n / of_int d) = (2 * n + d) div (2 * d)"
proof -
  have "(of_int n / of_int d + 1 / 2 :: rat) = of_int (2 * n + d) / of_int (2 * d)"
    using assms by (simp add: field_simps)
  then show ?thesis
    unfolding Math_round_def by (simp only: floor_divide_of_int_eq)
qed

lemma fold_progress_sum:
  "fold (\<lambda>d sum. sum + progress d) wd a = a + sum_list (map progress wd)"
  by (induction wd arbitrary: a) simp_all

lemma Math_max_fold_Num:
  "fold (\<lambda>x acc. case acc of Num m \<Rightarrow> Num (max m x) | NegInfinity \<Rightarrow> Num x
                    | PosInfinity \<Rightarrow> PosInfinity | NaN \<Rightarrow> NaN) xs (Num m)
   = Num (Max (insert m (set xs)))"
proof (induction xs arbitrary: m)
  case Nil
  then show ?case by simp
next
  case (Cons x xs)
  have "Max (insert (max m x) (set xs)) = Max (insert m (insert x (set xs)))"
    by (cases "set xs = {}") (simp_all add: max.assoc max.commute max.left_commute)
  with Cons show ?case by simp
qed

lemma Math_max_nonempty: "xs \<noteq> [] \<Longrightarrow> Math_max xs = Num (Max (set xs))"
  by (cases xs) (simp_all add: Math_max_def Math_max_fold_Num)

lemma sum_progress_zero:
  "(\<forall>d \<in> set wd. progress d = 0) \<Longrightarrow> sum_list (map progress wd) = 0"
  by (induction wd) simp_all

lemma Math_max_empty: "Math_max [] = NegInfinity"
  by (simp add: Math_max_def)

lemma Math_round_nonneg: "0 \<le> n \<Longrightarrow> 0 \<le> Math_round (rat_of_int n / 7)"
  using Math_round_div [of 7 n] by (simp add: pos_imp_zdiv_nonneg_iff)

lemma sum_progress_nonneg:
  "(\<forall>d \<in> set wd. 0 \<le> progress d) \<Longrightarrow> 0 \<le> sum_list (map progress wd)"
  by (induction wd) simp_all

subsection \<open>The statistics of a seven-day series\<close>

text \<open>
  Claim C1, as the code has it. For every series of seven days, \<open>getWeekStats\<close> returns
  the sum of the seven values as total, the largest single value as best and the number
  of days with a value above zero as daysActive. The average is the total divided by 7
  and then rounded to the nearest integer by \<open>Math.round\<close> (a half goes up), and it
  is 0 when no day has a value above zero; the divisor is 7 whatever the number of
  active days. When no value is negative the second case is the first one, since the
  total is then 0. For the values 10, 0, 20, 0, 0, 5, 0 the result is total 35,
  average 5, best 20 and 3 active days.
\<close>

theorem getWeekStats_seven_days:
  assumes "length series = 7"
  shows "total (getWeekStats series) = sum_list (map progress series)
       \<and> average (getWeekStats series) =
           (if \<exists>d \<in> set series. 0 < progress d
            then round (rat_of_int (sum_list (map progress series)) / 7) else 0)
       \<and> ((\<forall>d \<in> set series. 0 \<le> progress d) \<longrightarrow>
            average (getWeekStats series) =
              round (rat_of_int (sum_list (map progress series)) / 7))
       \<and> best (getWeekStats series) = Num (Max (set (map progress series)))
       \<and> daysActive (getWeekStats series) =
           card {i. i < 7 \<and> 0 < progress (series ! i)}
       \<and> (map progress series = [10, 0, 20, 0, 0, 5, 0] \<longrightarrow>
            getWeekStats series =
              \<lparr>total = 35, average = 5, best = Num 20, daysActive = 3\<rparr>)"
proof -
  let ?ps = "map progress series"
  let ?n = "length (filter (\<lambda>d. 0 < progress d) series)"
  from assms have ne: "series \<noteq> []" by auto
  have tot: "total (getWeekStats series) = sum_list ?ps"
    using ne by (simp add: getWeekStats_def Let_def fold_progress_sum)
  have act: "daysActive (getWeekStats series) = ?n"
    using ne by (simp add: getWeekStats_def Let_def)
  have avg: "average (getWeekStats series) =
      (if 0 < ?n then round (rat_of_int (sum_list ?ps) / 7) else 0)"
    using ne by (simp add: getWeekStats_def Let_def fold_progress_sum Math_round_round)
  have bst: "best (getWeekStats series) = Num (Max (set ?ps))"
    using ne by (simp add: getWeekStats_def Let_def Math_max_nonempty)
  have pos: "0 < ?n \<longleftrightarrow> (\<exists>d \<in> set series. 0 < progress d)"
    by (simp add: filter_empty_conv)
  have avg1: "average (getWeekStats series) =
      (if \<exists>d \<in> set series. 0 < progress d
       then round (rat_of_int (sum_list ?ps) / 7) else 0)"
    using avg pos by simp
  have avg2: "average (getWeekStats series) = round (rat_of_int (sum_list ?ps) / 7)"
    if nonneg: "\<forall>d \<in> set series. 0 \<le> progress d"
  proof (cases "\<exists>d \<in> set series. 0 < progress d")
    case True
    with avg1 show ?thesis by simp
  next
    case False
    with nonneg have "\<forall>d \<in> set series. progress d = 0" by force
    then have "sum_list ?ps = 0" by (rule sum_progress_zero)
    with avg1 False show ?thesis by simp
  qed
  have cnt: "?n = card {i. i < 7 \<and> 0 < progress (series ! i)}"
    using assms by (simp add: length_filter_conv_card)
  have ex: "getWeekStats series =
      \<lparr>total = 35, average = 5, best = Num 20, daysActive = 3\<rparr>"
    if vals: "?ps = [10, 0, 20, 0, 0, 5, 0]"
  proof -
    have f: "filter (\<lambda>d. 0 < progress d) series
           = filter (\<lambda>d. 0 < progress d) series" ..
    have "?n = length (filter (\<lambda>p. 0 < p) ?ps)"
      by (simp add: filter_map comp_def)
    also have "\<dots> = 3" by (simp add: vals)
    finally have n3: "?n = 3" .
    have a5: "round (rat_of_int 35 / 7) = 5"
      using Math_round_div[of 7 35] by (simp add: Math_round_round)
    have "total (getWeekStats series) = 35" using tot vals by simp
    moreover have "average (getWeekStats series) = 5" using avg n3 vals a5 by simp
    moreover have "best (getWeekStats series) = Num 20" using bst vals by simp
    moreover have "daysActive (getWeekStats series) = 3" using act n3 by simp
    ultimately show ?thesis by (cases "getWeekStats series") simp
  qed
  show ?thesis using tot avg1 avg2 bst act cnt ex by simp
qed

text \<open>The theorem applied to the example week of the specification.\<close>

theorem getWeekStats_seven_days_witness:
  "length (week_of [10, 0, 20, 0, 0, 5, 0]) = 7
   \<and> getWeekStats (week_of [10, 0, 20, 0, 0, 5, 0]) =
       \<lparr>total = 35, average = 5, best = Num 20, daysActive = 3\<rparr>"
proof -
  have len: "length (week_of [10, 0, 20, 0, 0, 5, 0]) = 7"
    by (simp add: week_of_def)
  have vals: "map progress (week_of [10, 0, 20, 0, 0, 5, 0]) = [10, 0, 20, 0, 0, 5, 0]"
    by (simp add: week_of_def)
  from getWeekStats_seven_days [OF len] vals len show ?thesis by blast
qed

text \<open>
  The average is not the plain quotient: a week with the single value 4 has total 4 and
  average 1, which is neither 4/7 nor the integer quotient 0.
\<close>

theorem getWeekStats_average_counterexample:
  "length (week_of [4, 0, 0, 0, 0, 0, 0]) = 7
   \<and> total (getWeekStats (week_of [4, 0, 0, 0, 0, 0, 0])) = 4
   \<and> average (getWeekStats (week_of [4, 0, 0, 0, 0, 0, 0])) = 1
   \<and> rat_of_int (average (getWeekStats (week_of [4, 0, 0, 0, 0, 0, 0])))
       \<noteq> rat_of_int (total (getWeekStats (week_of [4, 0, 0, 0, 0, 0, 0]))) / 7
   \<and> average (getWeekStats (week_of [4, 0, 0, 0, 0, 0, 0]))
       \<noteq> total (getWeekStats (week_of [4, 0, 0, 0, 0, 0, 0])) div 7"
  by (simp add: getWeekStats_def week_of_def Math_round_div [of 7 4, simplified])

subsection \<open>The statistics are defined on every series\<close>

text \<open>
  Claim C9. \<open>getWeekStats\<close> answers on every series. On the empty series it returns
  total 0, average 0, best 0 and 0 active days without calling \<open>Math.max\<close>, whose value
  on no arguments is minus infinity; so best is always a finite number. When no value
  of the series is negative, total, average and best are all at least 0.
\<close>

theorem getWeekStats_well_defined:
  "getWeekStats [] = \<lparr>total = 0, average = 0, best = Num 0, daysActive = 0\<rparr>
   \<and> Math_max [] = NegInfinity
   \<and> (\<exists>b. best (getWeekStats series) = Num b)
   \<and> ((\<forall>d \<in> set series. 0 \<le> progress d) \<longrightarrow>
         0 \<le> total (getWeekStats series)
       \<and> 0 \<le> average (getWeekStats series)
       \<and> (\<exists>b\<ge>0. best (getWeekStats series) = Num b))"
proof -
  have empty: "getWeekStats [] = \<lparr>total = 0, average = 0, best = Num 0, daysActive = 0\<rparr>"
    by (simp add: getWeekStats_def)
  have fin: "\<exists>b. best (getWeekStats series) = Num b"
    by (cases "series = []") (simp_all add: getWeekStats_def Let_def Math_max_nonempty)
  have nonneg: "0 \<le> total (getWeekStats series)
       \<and> 0 \<le> average (getWeekStats series)
       \<and> (\<exists>b\<ge>0. best (getWeekStats series) = Num b)"
    if h: "\<forall>d \<in> set series. 0 \<le> progress d"
  proof (cases "series = []")
    case True
    then show ?thesis by (simp add: getWeekStats_def)
  next
    case False
    from h have s: "0 \<le> sum_list (map progress series)"
      by (rule sum_progress_nonneg)
    have t: "0 \<le> total (getWeekStats series)"
      using False s by (simp add: getWeekStats_def Let_def fold_progress_sum)
    have a: "0 \<le> average (getWeekStats series)"
      using False s
      by (simp add: getWeekStats_def Let_def fold_progress_sum Math_round_nonneg)
    from False obtain d where "d \<in> set series" by (cases series) auto
    with h have "0 \<le> progress d" and "progress d \<in> set (map progress series)"
      by simp_all
    then have "0 \<le> Max (set (map progress series))"
      by (meson List.finite_set Max_ge order_trans)
    then have b: "\<exists>b\<ge>0. best (getWeekStats series) = Num b"
      using False by (simp add: getWeekStats_def Let_def Math_max_nonempty)
    from t a b show ?thesis by simp
  qed
  from empty fin nonneg show ?thesis by (simp add: Math_max_empty)
qed

text \<open>The theorem at a series of three days, and the empty series.\<close>

theorem getWeekStats_well_defined_witness:
  "0 \<le> total (getWeekStats (week_of [3, 0, 8]))
   \<and> 0 \<le> average (getWeekStats (week_of [3, 0, 8]))
   \<and> best (getWeekStats (week_of [3, 0, 8])) = Num 8
   \<and> getWeekStats (week_of []) = \<lparr>total = 0, average = 0, best = Num 0, daysActive = 0\<rparr>"
proof -
  have h: "\<forall>d \<in> set (week_of [3, 0, 8]). 0 \<le> progress d"
    by (simp add: week_of_def)
  have b: "best (getWeekStats (week_of [3, 0, 8])) = Num 8"
    by (simp add: getWeekStats_def week_of_def Math_max_def)
  have e: "week_of [] = []" by (simp add: week_of_def)
  from getWeekStats_well_defined [of "week_of [3, 0, 8]"] h b e show ?thesis by simp
qed

section \<open>Properties of the double precision arithmetic\<close>

lemma bitlen_powi:
  assumes "0 < n"
  shows "(2::rat) powi (bitlen n - 1) \<le> of_int n" "of_int n < (2::rat) powi bitlen n"
proof -
  from bitlen_bounds [OF assms]
  have lo: "2 ^ nat (bitlen n - 1) \<le> n" and hi: "n < 2 ^ nat (bitlen n)" by simp_all
  from hi assms have b1: "1 \<le> bitlen n"
    by (cases "bitlen n \<le> 0") simp_all
  from lo have "rat_of_int (2 ^ nat (bitlen n - 1)) \<le> of_int n" by (simp only: of_int_le_iff)
  then show "(2::rat) powi (bitlen n - 1) \<le> of_int n"
    using b1 by (simp add: power_int_def)
  from hi have "rat_of_int n < of_int (2 ^ nat (bitlen n))" by (simp only: of_int_less_iff)
  then show "of_int n < (2::rat) powi bitlen n"
    using b1 by (simp add: power_int_def)
qed

lemma ilog2_bounds:
  assumes "x \<noteq> 0"
  shows "2 powi ilog2 x \<le> \<bar>x\<bar>" and "\<bar>x\<bar> < 2 powi (ilog2 x + 1)"
proof -
  obtain n d where q: "quotient_of \<bar>x\<bar> = (n, d)" by (cases "quotient_of \<bar>x\<bar>")
  then have d: "0 < d" by (rule quotient_of_denom_pos)
  from q have x: "\<bar>x\<bar> = of_int n / of_int d" by (rule quotient_of_div)
  from assms have "0 < \<bar>x\<bar>" by simp
  with x d have n: "0 < n" by (simp add: zero_less_divide_iff)
  let ?k = "bitlen n - bitlen d"
  let ?N = "rat_of_int n" and ?D = "rat_of_int d"
  have Dpos: "0 < ?D" using d by simp
  have Npos: "0 < ?N" using n by simp
  note bn = bitlen_powi [OF n] and bd = bitlen_powi [OF d]
  have lower: "2 powi (?k - 1) \<le> \<bar>x\<bar>"
  proof -
    have "?k - 1 = (bitlen n - 1) - bitlen d" by simp
    then have "(2::rat) powi (?k - 1) = 2 powi (bitlen n - 1) / 2 powi bitlen d"
      by (simp only: power_int_diff [of "2::rat", simplified])
    also have "\<dots> \<le> ?N / 2 powi bitlen d"
      using bn(1) by (simp add: divide_right_mono)
    also have "\<dots> \<le> ?N / ?D"
      using bd(2) Npos Dpos by (intro divide_left_mono) (simp_all add: less_imp_le)
    finally show ?thesis by (simp add: x)
  qed
  have upper: "\<bar>x\<bar> < 2 powi (?k + 1)"
  proof -
    have "?N / ?D < 2 powi bitlen n / ?D"
      using bn(2) Dpos by (simp add: divide_strict_right_mono)
    also have "\<dots> \<le> 2 powi bitlen n / 2 powi (bitlen d - 1)"
      using bd(1) d by (intro divide_left_mono) (simp_all add: zero_less_mult_iff)
    also have "\<dots> = (2::rat) powi (?k + 1)"
    proof -
      have "?k + 1 = bitlen n - (bitlen d - 1)" by simp
      then show ?thesis by (simp only: power_int_diff [of "2::rat", simplified])
    qed
    finally show ?thesis by (simp add: x)
  qed
  have e: "ilog2 x = (if 2 powi ?k \<le> \<bar>x\<bar> then ?k else ?k - 1)"
    by (simp add: ilog2_def q Let_def)
  show "2 powi ilog2 x \<le> \<bar>x\<bar>"
    using lower by (simp add: e)
  show "\<bar>x\<bar> < 2 powi (ilog2 x + 1)"
    using upper by (auto simp: e not_le)
qed

lemma ilog2_ge:
  assumes "2 powi k \<le> \<bar>x\<bar>"
  shows "k \<le> ilog2 x"
proof (rule ccontr)
  assume "\<not> k \<le> ilog2 x"
  then have "ilog2 x + 1 \<le> k" by simp
  then have "(2::rat) powi (ilog2 x + 1) \<le> 2 powi k"
    by (intro power_int_increasing) simp_all
  moreover have "(0::rat) < 2 powi k" by simp
  with assms have "0 < \<bar>x\<bar>" by linarith
  then have "x \<noteq> 0" by simp
  ultimately show False using ilog2_bounds(2) [of x] assms by simp
qed

lemma ilog2_le:
  assumes "x \<noteq> 0" and "\<bar>x\<bar> < 2 powi (k + 1)"
  shows "ilog2 x \<le> k"
proof (rule ccontr)
  assume "\<not> ilog2 x \<le> k"
  then have "k + 1 \<le> ilog2 x" by simp
  then have "(2::rat) powi (k + 1) \<le> 2 powi ilog2 x"
    by (intro power_int_increasing) simp_all
  with ilog2_bounds(1) [OF assms(1)] assms(2) show False by simp
qed


lemma roundTiesToEven_floor: "\<lfloor>y\<rfloor> \<le> roundTiesToEven y \<and> roundTiesToEven y \<le> \<lfloor>y\<rfloor> + 1"
  by (simp add: roundTiesToEven_def Let_def)

lemma roundTiesToEven_error: "\<bar>of_int (roundTiesToEven y) - y\<bar> \<le> 1 / 2"
proof -
  have "of_int \<lfloor>y\<rfloor> \<le> y" "y < of_int \<lfloor>y\<rfloor> + 1" by linarith+
  then show ?thesis
    by (auto simp: roundTiesToEven_def Let_def abs_le_iff)
qed

lemma roundTiesToEven_ge: "of_int n \<le> y \<Longrightarrow> n \<le> roundTiesToEven y"
proof -
  assume "of_int n \<le> y"
  then have "n \<le> \<lfloor>y\<rfloor>" by (simp add: le_floor_iff)
  with roundTiesToEven_floor [of y] show ?thesis by simp
qed

lemma roundTiesToEven_le: "y \<le> of_int n \<Longrightarrow> roundTiesToEven y \<le> n"
proof -
  assume le: "y \<le> of_int n"
  show ?thesis
  proof (cases "y = of_int n")
    case True
    then show ?thesis by (simp add: roundTiesToEven_def)
  next
    case False
    with le have "y < of_int n" by simp
    then have "\<lfloor>y\<rfloor> < n" by (simp add: floor_less_iff)
    with roundTiesToEven_floor [of y] show ?thesis by simp
  qed
qed


lemma binary64_positive:
  assumes x: "0 < x" and normal: "- 1022 \<le> ilog2 x"
  obtains r where "r = rat_of_int (roundTiesToEven (x / 2 powi (ilog2 x - 52))) * 2 powi (ilog2 x - 52)"
    and "binary64 x = (if 2 powi 1024 \<le> r then PosInfinity else Num r)"
    and "binary64 x = PosInfinity \<or> binary64 x = Num r"
    and "2 powi ilog2 x \<le> r" and "r \<le> 2 powi (ilog2 x + 1)"
    and "\<bar>r - x\<bar> \<le> 2 powi (ilog2 x - 53)"
proof -
  let ?e = "ilog2 x"
  let ?ulp = "(2::rat) powi (?e - 52)"
  let ?y = "x / ?ulp"
  let ?r = "rat_of_int (roundTiesToEven ?y) * ?ulp"
  have ulp: "0 < ?ulp" by simp
  from x have x0: "x \<noteq> 0" and ax: "\<bar>x\<bar> = x" by simp_all
  note b = ilog2_bounds [OF x0, unfolded ax]
  have p52: "(2::rat) powi ?e = 2 ^ 52 * ?ulp"
    using power_int_add [of "2::rat" 52 "?e - 52"] by simp
  have p53: "(2::rat) powi (?e + 1) = 2 ^ 53 * ?ulp"
    using power_int_add [of "2::rat" 53 "?e - 52"] by (simp add: algebra_simps)
  have half: "(2::rat) powi (?e - 53) = ?ulp / 2"
    using power_int_add [of "2::rat" 1 "?e - 53"] by (simp add: algebra_simps)
  have ylo: "rat_of_int (2 ^ 52) \<le> ?y"
    using b(1) ulp by (simp add: p52 pos_le_divide_eq)
  have yhi: "?y \<le> rat_of_int (2 ^ 53)"
    using b(2) ulp by (simp add: p53 pos_divide_le_eq less_imp_le)
  from ylo have rlo: "2 ^ 52 \<le> roundTiesToEven ?y" by (rule roundTiesToEven_ge)
  from yhi have rhi: "roundTiesToEven ?y \<le> 2 ^ 53" by (rule roundTiesToEven_le)
  have lo: "2 powi ?e \<le> ?r"
  proof -
    from rlo have "rat_of_int (2 ^ 52) \<le> rat_of_int (roundTiesToEven ?y)"
      by (simp only: of_int_le_iff)
    then have "rat_of_int (2 ^ 52) * ?ulp \<le> ?r"
      using ulp by (intro mult_right_mono) simp_all
    then show ?thesis by (simp add: p52)
  qed
  have hi: "?r \<le> 2 powi (?e + 1)"
  proof -
    from rhi have "rat_of_int (roundTiesToEven ?y) \<le> rat_of_int (2 ^ 53)"
      by (simp only: of_int_le_iff)
    then have "?r \<le> rat_of_int (2 ^ 53) * ?ulp"
      using ulp by (intro mult_right_mono) simp_all
    then show ?thesis by (simp add: p53)
  qed
  have err: "\<bar>?r - x\<bar> \<le> 2 powi (?e - 53)"
  proof -
    have "?r - x = (rat_of_int (roundTiesToEven ?y) - ?y) * ?ulp"
      using ulp by (simp add: algebra_simps)
    then have "\<bar>?r - x\<bar> = \<bar>rat_of_int (roundTiesToEven ?y) - ?y\<bar> * ?ulp"
      using ulp by (simp add: abs_mult)
    also have "\<dots> \<le> 1 / 2 * ?ulp"
      using roundTiesToEven_error [of ?y] ulp by (intro mult_right_mono) simp_all
    finally show ?thesis by (simp add: half)
  qed
  have rpos: "0 < ?r"
    using lo zero_less_power_int [of "2::rat" ?e] by linarith
  have "\<not> ?r \<le> - (2 powi 1024)"
    using rpos by simp
  then have val: "binary64 x = (if 2 powi 1024 \<le> ?r then PosInfinity else Num ?r)"
    using x0 normal by (simp add: binary64_def Let_def max_def)
  have "binary64 x = PosInfinity \<or> binary64 x = Num ?r"
  proof (cases "2 powi 1024 \<le> ?r")
    case True
    then have "(if 2 powi 1024 \<le> ?r then PosInfinity else Num ?r) = PosInfinity"
      by (rule if_P)
    with val have "binary64 x = PosInfinity" by (rule trans)
    then show ?thesis ..
  next
    case False
    then have "(if 2 powi 1024 \<le> ?r then PosInfinity else Num ?r) = Num ?r"
      by (rule if_not_P)
    with val have "binary64 x = Num ?r" by (rule trans)
    then show ?thesis ..
  qed
  from that [OF refl val this lo hi err] show thesis .
qed

lemma binary64_normal:
  assumes lo: "2 powi (- 1022) \<le> x" and hi: "x < 2 powi 1023"
  obtains r where "binary64 x = Num r" and "0 < r" and "\<bar>r - x\<bar> \<le> x / 2 ^ 53"
    and "r = rat_of_int (roundTiesToEven (x / 2 powi (ilog2 x - 52))) * 2 powi (ilog2 x - 52)"
proof -
  have "(0::rat) < 2 powi (- 1022)" by simp
  with lo have x: "0 < x" by linarith
  then have ax: "\<bar>x\<bar> = x" and x0: "x \<noteq> 0" by simp_all
  from lo have n: "- 1022 \<le> ilog2 x" using ilog2_ge [of "- 1022" x] by (simp add: ax)
  from hi have m: "ilog2 x \<le> 1022" using ilog2_le [OF x0, of 1022] by (simp add: ax)
  from binary64_positive [OF x n] obtain r
    where req: "r = rat_of_int (roundTiesToEven (x / 2 powi (ilog2 x - 52))) * 2 powi (ilog2 x - 52)"
      and v: "binary64 x = (if 2 powi 1024 \<le> r then PosInfinity else Num r)"
      and rlo: "2 powi ilog2 x \<le> r" and rhi: "r \<le> 2 powi (ilog2 x + 1)"
      and err: "\<bar>r - x\<bar> \<le> 2 powi (ilog2 x - 53)"
    by blast
  from m have "(2::rat) powi (ilog2 x + 1) \<le> 2 powi 1023"
    by (intro power_int_increasing) simp_all
  moreover have "(2::rat) powi 1023 < 2 powi 1024"
    by (intro power_int_strict_increasing) simp_all
  ultimately have "r < 2 powi 1024" using rhi by linarith
  with v have val: "binary64 x = Num r" by simp
  have rpos: "0 < r" using rlo zero_less_power_int [of "2::rat" "ilog2 x"] by linarith
  have "(2::rat) powi (ilog2 x - 53) = 2 powi ilog2 x / 2 ^ 53"
    by (simp add: power_int_diff)
  also have "\<dots> \<le> x / 2 ^ 53"
    using ilog2_bounds(1) [OF x0] by (simp add: ax divide_right_mono)
  finally have "\<bar>r - x\<bar> \<le> x / 2 ^ 53" using err by linarith
  from that [OF val rpos this req] show thesis .
qed





text \<open>
  The quotient of a total by 7: for a total from 0 up to \<open>2 ^ 52\<close> the double quotient
  and the exact quotient round to the same integer.
\<close>

lemma round_seventh:
  fixes n :: int and r :: rat
  assumes "\<bar>r - rat_of_int n / 7\<bar> < 1 / 14"
  shows "Math_round r = Math_round (rat_of_int n / 7)"
proof -
  let ?k = "(2 * n + 7) div 14" and ?m = "(2 * n + 7) mod 14"
  have split: "2 * n + 7 = 14 * ?k + ?m" by simp
  have m: "1 \<le> ?m" "?m \<le> 13" by presburger+
  have "rat_of_int (2 * n + 7) = rat_of_int (14 * ?k + ?m)" by (subst split) (rule refl)
  then have "2 * rat_of_int n + 7 = 14 * rat_of_int ?k + rat_of_int ?m"
    by (simp only: of_int_add of_int_mult of_int_numeral)
  then have x: "rat_of_int n / 7 + 1 / 2 = rat_of_int ?k + rat_of_int ?m / 14"
    by linarith
  from m have "1 \<le> rat_of_int ?m" "rat_of_int ?m \<le> 13" by simp_all
  with x assms have lo: "rat_of_int ?k \<le> r + 1 / 2" and hi: "r + 1 / 2 < rat_of_int ?k + 1"
    and lo': "rat_of_int ?k \<le> rat_of_int n / 7 + 1 / 2"
    and hi': "rat_of_int n / 7 + 1 / 2 < rat_of_int ?k + 1"
    by linarith+
  from lo hi have "\<lfloor>r + 1 / 2\<rfloor> = ?k" by (rule floor_unique)
  moreover from lo' hi' have "\<lfloor>rat_of_int n / 7 + 1 / 2\<rfloor> = ?k" by (rule floor_unique)
  ultimately show ?thesis by (simp only: Math_round_def)
qed

lemma average_double_quotient:
  assumes n0: "0 \<le> n" and n52: "n < 2 ^ 52"
  shows "Math_round_num (js_divide n 7) = Num (Math_round (rat_of_int n / 7))"
proof (cases "n = 0")
  case True
  then show ?thesis by (simp add: js_divide_def binary64_def Math_round_num_def)
next
  case False
  let ?x = "rat_of_int n / 7"
  from False n0 have "1 \<le> n" by simp
  then have n1: "1 \<le> rat_of_int n" by simp
  from n52 have "rat_of_int n < rat_of_int (2 ^ 52)" by (simp only: of_int_less_iff)
  then have nmax: "rat_of_int n < 2 ^ 52" by simp
  have "(2::rat) powi (- 1022) \<le> 2 powi (- 3)"
    by (intro power_int_increasing) simp_all
  also have "\<dots> \<le> ?x" using n1 by simp
  finally have lo: "2 powi (- 1022) \<le> ?x" .
  have "?x < 2 powi 52" using nmax by simp
  also have "(2::rat) powi 52 < 2 powi 1023"
    by (intro power_int_strict_increasing) simp_all
  finally have hi: "?x < 2 powi 1023" .
  from lo hi obtain r where r: "binary64 ?x = Num r" and err: "\<bar>r - ?x\<bar> \<le> ?x / 2 ^ 53"
    by (rule binary64_normal)
  have "?x / 2 ^ 53 < 1 / 14" using nmax by simp
  with err have "\<bar>r - ?x\<bar> < 1 / 14" by linarith
  then have "Math_round r = Math_round ?x" by (rule round_seventh)
  then show ?thesis by (simp add: js_divide_def r Math_round_num_def)
qed

section \<open>Properties of the weekly series\<close>

subsection \<open>The week of a day\<close>

lemma getDay_range: "0 \<le> getDay d \<and> getDay d < 7"
  by (simp add: getDay_def)

lemma getDay_minus: "getDay (d - n) = (getDay d - n) mod 7"
proof -
  have "d - n + 4 = d + 4 - n" by simp
  then show ?thesis by (simp only: getDay_def mod_diff_left_eq)
qed

lemma startOfWeek_1: "startOfWeek d 1 = d - (if getDay d = 0 then 6 else getDay d - 1)"
  using getDay_range [of d] by (simp add: startOfWeek_def Let_def)

lemma endOfWeek_Sunday: "endOfWeek d 1 = startOfWeek d 1 + 6"
  using getDay_range [of d] by (simp add: startOfWeek_def endOfWeek_def Let_def)

lemma startOfWeek_Monday:
  "getDay (startOfWeek d 1) = 1 \<and> startOfWeek d 1 \<le> d \<and> d \<le> startOfWeek d 1 + 6"
proof (cases "getDay d = 0")
  case True
  then show ?thesis by (simp add: startOfWeek_1 getDay_minus)
next
  case False
  with getDay_range [of d] show ?thesis by (simp add: startOfWeek_1 getDay_minus)
qed

lemma getDay_Sunday: "getDay (endOfWeek d 1) = 0"
proof -
  have "getDay (startOfWeek d 1 + 6) = (getDay (startOfWeek d 1) + 6) mod 7"
    using getDay_minus [of "startOfWeek d 1" "- 6"] by simp
  then show ?thesis by (simp add: endOfWeek_Sunday startOfWeek_Monday)
qed

lemma upto_seven: "[m..m + 6] = [m, m + 1, m + 2, m + 3, m + 4, m + 5, m + 6]"
proof -
  have step: "\<And>i j :: int. i \<le> j \<Longrightarrow> [i..j] = i # [i + 1..j]"
    by (rule upto_rec1)
  have "[m..m + 6] = m # [m + 1..m + 6]" by (rule step) simp
  also have "[m + 1..m + 6] = (m + 1) # [m + 2..m + 6]" using step [of "m + 1" "m + 6"] by (simp add: algebra_simps)
  also have "[m + 2..m + 6] = (m + 2) # [m + 3..m + 6]" using step [of "m + 2" "m + 6"] by (simp add: algebra_simps)
  also have "[m + 3..m + 6] = (m + 3) # [m + 4..m + 6]" using step [of "m + 3" "m + 6"] by (simp add: algebra_simps)
  also have "[m + 4..m + 6] = (m + 4) # [m + 5..m + 6]" using step [of "m + 4" "m + 6"] by (simp add: algebra_simps)
  also have "[m + 5..m + 6] = (m + 5) # [m + 6..m + 6]" using step [of "m + 5" "m + 6"] by (simp add: algebra_simps)
  also have "[m + 6..m + 6] = [m + 6]" by simp
  finally show ?thesis .
qed

lemma eachDayOfInterval_week:
  "eachDayOfInterval (startOfWeek d 1) (endOfWeek d 1) =
     Some [startOfWeek d 1, startOfWeek d 1 + 1, startOfWeek d 1 + 2, startOfWeek d 1 + 3,
           startOfWeek d 1 + 4, startOfWeek d 1 + 5, startOfWeek d 1 + 6]"
  by (simp add: eachDayOfInterval_def endOfWeek_Sunday upto_seven)

text \<open>The days of the examples, formatted.\<close>

lemma civil_examples:
  "civil 20752 = (2026, 10, 26)" "civil 20753 = (2026, 10, 27)"
  "civil 20754 = (2026, 10, 28)" "civil 20755 = (2026, 10, 29)"
  "civil 20756 = (2026, 10, 30)" "civil 20757 = (2026, 10, 31)"
  "civil 20758 = (2026, 11, 1)" "civil 20760 = (2026, 11, 3)"
  by (simp_all add: civil_def Let_def cong: let_weak_cong)

lemma format_ymd_examples:
  "format_ymd 20752 = ''2026-10-26''" "format_ymd 20753 = ''2026-10-27''"
  "format_ymd 20754 = ''2026-10-28''" "format_ymd 20755 = ''2026-10-29''"
  "format_ymd 20756 = ''2026-10-30''" "format_ymd 20757 = ''2026-10-31''"
  "format_ymd 20758 = ''2026-11-01''" "format_ymd 20760 = ''2026-11-03''"
  unfolding format_ymd_def civil_examples prod.case
  by (simp_all add: format_yyyy_def addLeadingZeros_def digit_def toString.simps)

subsection \<open>The series of the selected task and week\<close>

text \<open>
  Claim C7. With a task selected and a week offset \<open>selectedWeek\<close> (0 the current week,
  larger values further back), \<open>fetchWeeklyProgress\<close> takes the day that many weeks
  before today, computes the Monday that starts its week and the Sunday that ends it,
  asks for the progress history of the selected task, and on the answer stores a series
  of exactly the seven days from that Monday to that Sunday, in order; each day carries
  the progress value of the entry of the history recorded for that date (the first one
  \<open>find\<close> meets), and 0 when the history has no entry for that date.
\<close>

theorem fetchWeeklyProgress_week:
  assumes sel: "selectedTask_wp st \<noteq> []"
  shows
    "(let monday = startOfWeek (subWeeks today (selectedWeek st)) 1;
          sunday = endOfWeek (subWeeks today (selectedWeek st)) 1;
          week = [monday, monday + 1, monday + 2, monday + 3, monday + 4, monday + 5, monday + 6];
          r = fetchWeeklyProgress today (Resolved history) st
      in getDay monday = 1 \<and> getDay sunday = 0 \<and> sunday = monday + 6
       \<and> monday \<le> today - 7 * selectedWeek st \<and> today - 7 * selectedWeek st \<le> sunday
       \<and> requests r = [GET (''/progress-entries/'' @ selectedTask_wp st)]
       \<and> map date (weeklyData (state r)) = map format_ymd week
       \<and> map progress (weeklyData (state r)) =
           map (\<lambda>d. case find (\<lambda>e. date_progress e = format_ymd d) history of
                      Some e \<Rightarrow> progress_value e
                    | None \<Rightarrow> 0) week)"
proof -
  let ?d = "subWeeks today (selectedWeek st)"
  let ?m = "startOfWeek ?d 1"
  let ?r = "fetchWeeklyProgress today (Resolved history) st"
  have d: "?d = today - 7 * selectedWeek st" by (simp add: subWeeks_def)
  have cal: "getDay ?m = 1 \<and> getDay (endOfWeek ?d 1) = 0 \<and> endOfWeek ?d 1 = ?m + 6
        \<and> ?m \<le> today - 7 * selectedWeek st \<and> today - 7 * selectedWeek st \<le> endOfWeek ?d 1"
    using startOfWeek_Monday [of ?d] getDay_Sunday [of ?d] endOfWeek_Sunday [of ?d] d
    by simp
  have req: "requests ?r = [GET (''/progress-entries/'' @ selectedTask_wp st)]"
    using sel by (simp add: fetchWeeklyProgress_def Let_def eachDayOfInterval_week)
  have dat: "map date (weeklyData (state ?r)) =
      map format_ymd [?m, ?m + 1, ?m + 2, ?m + 3, ?m + 4, ?m + 5, ?m + 6]"
    using sel by (simp add: fetchWeeklyProgress_def Let_def eachDayOfInterval_week)
  have prg: "map progress (weeklyData (state ?r)) =
      map (\<lambda>d. case find (\<lambda>e. date_progress e = format_ymd d) history of
                 Some e \<Rightarrow> progress_value e | None \<Rightarrow> 0)
        [?m, ?m + 1, ?m + 2, ?m + 3, ?m + 4, ?m + 5, ?m + 6]"
    using sel by (simp add: fetchWeeklyProgress_def Let_def eachDayOfInterval_week)
  from cal req dat prg show ?thesis unfolding Let_def by blast
qed

text \<open>
  The theorem on the example: today is Tuesday 3 November 2026 (day 20760), the week
  shown is the one before, Monday 26 October to Sunday 1 November.
\<close>

theorem fetchWeeklyProgress_week_witness:
  "selectedTask_wp example_view \<noteq> []
   \<and> startOfWeek (subWeeks 20760 (selectedWeek example_view)) 1 = 20752
   \<and> map date (weeklyData (state (fetchWeeklyProgress 20760 (Resolved example_history) example_view)))
       = [''2026-10-26'', ''2026-10-27'', ''2026-10-28'', ''2026-10-29'', ''2026-10-30'',
          ''2026-10-31'', ''2026-11-01'']
   \<and> map progress (weeklyData (state (fetchWeeklyProgress 20760 (Resolved example_history) example_view)))
       = [0, 0, 30, 0, 0, 0, 0]"
proof -
  have sel: "selectedTask_wp example_view \<noteq> []" by (simp add: example_view_def)
  have mon: "startOfWeek (subWeeks 20760 (selectedWeek example_view)) 1 = 20752"
    by (simp add: example_view_def subWeeks_def startOfWeek_def getDay_def)
  note w = fetchWeeklyProgress_week [OF sel, of 20760 example_history, unfolded Let_def mon]
  from w have "map date (weeklyData (state (fetchWeeklyProgress 20760 (Resolved example_history) example_view)))
       = [''2026-10-26'', ''2026-10-27'', ''2026-10-28'', ''2026-10-29'', ''2026-10-30'',
          ''2026-10-31'', ''2026-11-01'']"
    by (simp add: format_ymd_examples)
  moreover from w have "map progress (weeklyData (state (fetchWeeklyProgress 20760 (Resolved example_history) example_view)))
       = [0, 0, 30, 0, 0, 0, 0]"
    by (simp add: format_ymd_examples example_history_def)
  ultimately show ?thesis using sel mon by simp
qed

section \<open>Properties of the journal view\<close>

subsection \<open>Selecting a date\<close>

text \<open>
  Claim C5. Fetching the entry of a date asks for that date and then: on an answer with
  status 404 the view is in editing mode with empty content and no entry; on a
  successful answer that carries an entry the view is in viewing mode with the content
  of that entry and \<open>hasEntry\<close> set; on any other failure (another status, or no
  response at all) content, \<open>hasEntry\<close> and \<open>isEditing\<close> are what they were and the
  failure is logged and shown as an error toast.
\<close>

theorem fetchJournalEntryByDate_cases:
  "(let r = fetchJournalEntryByDate (Rejected (Some 404)) d st
    in requests r = [GET (''/journal-entries/'' @ format_ymd d)]
     \<and> isEditing (state r) \<and> journalContent (state r) = [] \<and> \<not> hasEntry (state r)
     \<and> notices r = [])
   \<and> (let r = fetchJournalEntryByDate (Resolved (Some e)) d st
      in requests r = [GET (''/journal-entries/'' @ format_ymd d)]
       \<and> \<not> isEditing (state r) \<and> journalContent (state r) = content e \<and> hasEntry (state r)
       \<and> notices r = [])
   \<and> (status \<noteq> Some 404 \<longrightarrow>
        (let r = fetchJournalEntryByDate (Rejected status) d st
         in requests r = [GET (''/journal-entries/'' @ format_ymd d)]
          \<and> isEditing (state r) = isEditing st
          \<and> journalContent (state r) = journalContent st
          \<and> hasEntry (state r) = hasEntry st
          \<and> notices r = [console_error ''Failed to fetch journal entry:'',
                          toast_error ''Failed to load journal entry'']))"
  by (simp add: fetchJournalEntryByDate_def Let_def)

text \<open>The theorem at a server error, a 404 and a found entry.\<close>

theorem fetchJournalEntryByDate_cases_witness:
  "(Some 500 :: nat option) \<noteq> Some 404
   \<and> journalContent (state (fetchJournalEntryByDate (Rejected (Some 500)) 20760 example_saved))
       = ''A quiet day.''
   \<and> hasEntry (state (fetchJournalEntryByDate (Rejected (Some 500)) 20760 example_saved))
   \<and> \<not> isEditing (state (fetchJournalEntryByDate (Rejected (Some 500)) 20760 example_saved))
   \<and> journalContent (state (fetchJournalEntryByDate (Rejected (Some 404)) 20760 example_saved)) = []
   \<and> isEditing (state (fetchJournalEntryByDate (Rejected (Some 404)) 20760 example_saved))
   \<and> journalContent (state (fetchJournalEntryByDate (Resolved (Some example_entry)) 20760 example_draft))
       = ''A quiet day.''"
proof -
  have s: "(Some 500 :: nat option) \<noteq> Some 404" by simp
  from fetchJournalEntryByDate_cases [of 20760 example_saved example_entry "Some 500"] s
  have a: "journalContent (state (fetchJournalEntryByDate (Rejected (Some 500)) 20760 example_saved))
       = ''A quiet day.''
   \<and> hasEntry (state (fetchJournalEntryByDate (Rejected (Some 500)) 20760 example_saved))
   \<and> \<not> isEditing (state (fetchJournalEntryByDate (Rejected (Some 500)) 20760 example_saved))
   \<and> journalContent (state (fetchJournalEntryByDate (Rejected (Some 404)) 20760 example_saved)) = []
   \<and> isEditing (state (fetchJournalEntryByDate (Rejected (Some 404)) 20760 example_saved))"
    by (simp add: Let_def example_saved_def)
  from fetchJournalEntryByDate_cases [of 20760 example_draft example_entry "Some 500"]
  have b: "journalContent (state (fetchJournalEntryByDate (Resolved (Some example_entry)) 20760 example_draft))
       = ''A quiet day.''"
    by (simp add: Let_def example_entry_def)
  from s a b show ?thesis by simp
qed

subsection \<open>Saving blank content\<close>

lemma trim_empty_iff: "trim s = [] \<longleftrightarrow> (\<forall>c \<in> set s. isWhiteSpace c)"
proof
  assume "trim s = []"
  then have "dropWhile isWhiteSpace (rev (dropWhile isWhiteSpace s)) = []"
    by (simp add: trim_def)
  then have "\<forall>c \<in> set (rev (dropWhile isWhiteSpace s)). isWhiteSpace c"
    by (simp add: dropWhile_eq_Nil_conv)
  then have all: "\<forall>c \<in> set (dropWhile isWhiteSpace s). isWhiteSpace c"
    by simp
  have "dropWhile isWhiteSpace s = []"
  proof (rule ccontr)
    assume ne: "dropWhile isWhiteSpace s \<noteq> []"
    then have "\<not> isWhiteSpace (hd (dropWhile isWhiteSpace s))"
      by (rule hd_dropWhile)
    moreover from ne have "hd (dropWhile isWhiteSpace s) \<in> set (dropWhile isWhiteSpace s)"
      by simp
    ultimately show False using all by blast
  qed
  then show "\<forall>c \<in> set s. isWhiteSpace c"
    by (simp add: dropWhile_eq_Nil_conv)
next
  assume "\<forall>c \<in> set s. isWhiteSpace c"
  then have d: "dropWhile isWhiteSpace s = []"
    by (simp add: dropWhile_eq_Nil_conv)
  show "trim s = []" unfolding trim_def d by simp
qed

text \<open>
  Claim C4. A content that is empty or consists of white space only is exactly a content
  that trims to the empty string; saving such a content issues no request at all (no
  POST, no PUT), raises the error toast, and leaves the whole state of the view as it
  was, whatever the server would have answered.
\<close>

theorem saveJournalEntry_rejects_blank:
  "(trim (journalContent st) = [] \<longleftrightarrow> (\<forall>c \<in> set (journalContent st). isWhiteSpace c))
   \<and> (trim (journalContent st) = [] \<longrightarrow>
        saveJournalEntry saved listed st =
          \<lparr>state = st, requests = [],
           notices = [toast_error ''Journal entry cannot be empty'']\<rparr>)"
  by (simp add: trim_empty_iff saveJournalEntry_def)

text \<open>The theorem on a content of blanks, a line feed and a tab.\<close>

theorem saveJournalEntry_rejects_blank_witness:
  "trim (journalContent example_blank) = []
   \<and> saveJournalEntry (Resolved ()) (Resolved [example_entry]) example_blank =
        \<lparr>state = example_blank, requests = [],
         notices = [toast_error ''Journal entry cannot be empty'']\<rparr>"
proof -
  have b: "trim (journalContent example_blank) = []"
    by (simp add: example_blank_def trim_def isWhiteSpace_def)
  from saveJournalEntry_rejects_blank [of example_blank "Resolved ()" "Resolved [example_entry]"] b
  show ?thesis by blast
qed

subsection \<open>Deleting when there is no entry\<close>

text \<open>
  Claim C10. When the selected date has no entry (\<open>hasEntry\<close> is false),
  \<open>deleteJournalEntry\<close> returns at once: it issues no request, raises no notification
  and leaves the state of the view, the entry list included, unchanged.
\<close>

theorem deleteJournalEntry_without_entry:
  assumes "\<not> hasEntry st"
  shows "deleteJournalEntry confirmed deleted listed st =
           \<lparr>state = st, requests = [], notices = []\<rparr>"
  using assms by (simp add: deleteJournalEntry_def settled_def)

text \<open>The theorem on the day that has only a draft.\<close>

theorem deleteJournalEntry_without_entry_witness:
  "\<not> hasEntry example_draft
   \<and> deleteJournalEntry True (Resolved ()) (Resolved []) example_draft =
        \<lparr>state = example_draft, requests = [], notices = []\<rparr>"
proof -
  have h: "\<not> hasEntry example_draft" by (simp add: example_draft_def)
  from deleteJournalEntry_without_entry [OF h, of True "Resolved ()" "Resolved []"] h
  show ?thesis by simp
qed

subsection \<open>Saving content: create or update\<close>

lemma saveJournalEntry_first_request:
  assumes "trim (journalContent st) \<noteq> []"
  shows "take 1 (requests (saveJournalEntry saved listed st)) =
     [if hasEntry st
      then PUT (''/journal-entries/'' @ format_ymd (selectedDate st))
             (JournalUpdate (journalContent st))
      else POST ''/journal-entries''
             (JournalCreate (format_ymd (selectedDate st)) (journalContent st))]"
  using assms
  by (cases saved; cases listed)
     (simp_all add: saveJournalEntry_def Let_def and_then_def settled_def fetchJournalEntries_def)

lemma saveJournalEntry_success:
  assumes "trim (journalContent st) \<noteq> []"
  shows "requests (saveJournalEntry (Resolved ()) listed st) =
     [if hasEntry st
      then PUT (''/journal-entries/'' @ format_ymd (selectedDate st))
             (JournalUpdate (journalContent st))
      else POST ''/journal-entries''
             (JournalCreate (format_ymd (selectedDate st)) (journalContent st)),
      GET ''/journal-entries'']"
    and "state (saveJournalEntry (Resolved ()) listed st) =
      st\<lparr>isEditing := False, hasEntry := True, loading_j := False,
         entries := (case listed of Resolved es \<Rightarrow> es | Rejected s \<Rightarrow> entries st)\<rparr>"
  using assms
  by (cases listed;
      simp add: saveJournalEntry_def Let_def and_then_def settled_def fetchJournalEntries_def)+

text \<open>
  Claim C6. A save of content that does not trim to the empty string issues, first and
  whatever the server answers, a PUT to the selected date when the date has an entry
  (\<open>hasEntry\<close> true) and a POST with the date and the content when it has none. When
  that call succeeds, the save then asks for the full entry list, stores the list the
  server returns, and leaves the view in viewing state (\<open>isEditing\<close> false,
  \<open>hasEntry\<close> true) with date and content as they were. So a second save from the
  state the first one leaves issues a PUT for the same date: it updates, and creates
  nothing.
\<close>

theorem saveJournalEntry_create_or_update:
  assumes ne: "trim (journalContent st) \<noteq> []"
  shows
    "(let put = PUT (''/journal-entries/'' @ format_ymd (selectedDate st))
                  (JournalUpdate (journalContent st));
          post = POST ''/journal-entries''
                   (JournalCreate (format_ymd (selectedDate st)) (journalContent st));
          r = saveJournalEntry (Resolved ()) listed st
      in take 1 (requests (saveJournalEntry saved listed st)) =
           [if hasEntry st then put else post]
       \<and> requests r = [if hasEntry st then put else post, GET ''/journal-entries'']
       \<and> \<not> isEditing (state r) \<and> hasEntry (state r)
       \<and> journalContent (state r) = journalContent st
       \<and> selectedDate (state r) = selectedDate st
       \<and> entries (state r) = (case listed of Resolved es \<Rightarrow> es | Rejected s \<Rightarrow> entries st)
       \<and> take 1 (requests (saveJournalEntry saved' listed' (state r))) = [put])"
proof -
  let ?r = "saveJournalEntry (Resolved ()) listed st"
  note s = saveJournalEntry_success [OF ne, of listed]
  have ne': "trim (journalContent (state ?r)) \<noteq> []"
    using ne by (simp add: s)
  have again: "take 1 (requests (saveJournalEntry saved' listed' (state ?r))) =
      [PUT (''/journal-entries/'' @ format_ymd (selectedDate st))
         (JournalUpdate (journalContent st))]"
    using saveJournalEntry_first_request [OF ne', of saved' listed'] by (simp add: s)
  show ?thesis
    unfolding Let_def
    using saveJournalEntry_first_request [OF ne, of saved listed] s again
    by simp
qed

text \<open>The theorem on the draft of the example day: the first save posts, the second puts.\<close>

theorem saveJournalEntry_create_or_update_witness:
  "trim (journalContent example_draft) \<noteq> []
   \<and> requests (saveJournalEntry (Resolved ()) (Resolved [example_entry]) example_draft) =
       [POST ''/journal-entries'' (JournalCreate ''2026-11-03'' ''A quiet day.''),
        GET ''/journal-entries'']
   \<and> state (saveJournalEntry (Resolved ()) (Resolved [example_entry]) example_draft) = example_saved
   \<and> take 1 (requests (saveJournalEntry (Resolved ()) (Resolved [example_entry])
         (state (saveJournalEntry (Resolved ()) (Resolved [example_entry]) example_draft)))) =
       [PUT ''/journal-entries/2026-11-03'' (JournalUpdate ''A quiet day.'')]"
proof -
  have ne: "trim (journalContent example_draft) \<noteq> []"
    by (simp add: example_draft_def trim_def isWhiteSpace_def)
  have st: "state (saveJournalEntry (Resolved ()) (Resolved [example_entry]) example_draft) = example_saved"
    using ne
    by (simp add: saveJournalEntry_def Let_def and_then_def settled_def fetchJournalEntries_def
          example_draft_def example_saved_def)
  have d: "selectedDate example_draft = 20760" "journalContent example_draft = ''A quiet day.''"
    "\<not> hasEntry example_draft"
    by (simp_all add: example_draft_def)
  from saveJournalEntry_create_or_update [OF ne, of "Resolved [example_entry]" "Resolved ()"
      "Resolved ()" "Resolved [example_entry]"]
  show ?thesis
    unfolding Let_def using ne st d by (simp add: format_ymd_examples)
qed


section \<open>Properties of the life tracker view\<close>

subsection \<open>A slider drag\<close>

text \<open>
  Claim C2, as the code has it. A slider drag first issues the persist call, a POST that
  upserts today's value of the task. Only when that call succeeds is the map from task
  id to value updated, to the new value for that task, and a success toast raised. When
  the call fails, the failure is logged and shown as an error toast and the map is what
  it was before the drag: no value was written ahead of the call, so there is nothing
  to roll back.
\<close>

theorem updateProgress_persist_first:
  "(let req = POST ''/progress-entries'' (ProgressUpsert taskId (format_ymd now) v)
    in requests (updateProgress now posted taskId v st) = [req]
     \<and> updateProgress now (Resolved ()) taskId v st =
         \<lparr>state = st\<lparr>todayProgress := (todayProgress st)(taskId \<mapsto> v)\<rparr>,
          requests = [req], notices = [toast_success ''Progress updated'']\<rparr>
     \<and> updateProgress now (Rejected status) taskId v st =
         \<lparr>state = st, requests = [req],
          notices = [console_error ''Failed to update progress:'',
                     toast_error ''Failed to update progress'']\<rparr>)"
  by (cases posted) (simp_all add: updateProgress_def Let_def)

text \<open>The theorem on the example state, for a call that succeeds and one that fails.\<close>

theorem updateProgress_persist_first_witness:
  "todayProgress (state (updateProgress 20760 (Resolved ()) ''t1'' 30 example_tracker)) ''t1'' = Some 30
   \<and> state (updateProgress 20760 (Rejected (Some 500)) ''t1'' 30 example_tracker) = example_tracker
   \<and> requests (updateProgress 20760 (Rejected (Some 500)) ''t1'' 30 example_tracker) =
       [POST ''/progress-entries'' (ProgressUpsert ''t1'' ''2026-11-03'' 30)]"
  using updateProgress_persist_first [of "''t1''" 20760 30 "Rejected (Some 500)" example_tracker "Some 500"]
  by (simp add: Let_def format_ymd_examples)

text \<open>
  After a failed persist the map does not hold the new value: the first task had 10,
  the drag to 30 is answered with status 500, and the map still gives 10.
\<close>

theorem updateProgress_optimistic_counterexample:
  "requests (updateProgress 20760 (Rejected (Some 500)) ''t1'' 30 example_tracker) =
     [POST ''/progress-entries'' (ProgressUpsert ''t1'' ''2026-11-03'' 30)]
   \<and> notices (updateProgress 20760 (Rejected (Some 500)) ''t1'' 30 example_tracker) =
     [console_error ''Failed to update progress:'', toast_error ''Failed to update progress'']
   \<and> todayProgress (state (updateProgress 20760 (Rejected (Some 500)) ''t1'' 30 example_tracker)) ''t1''
       = Some 10
   \<and> todayProgress (state (updateProgress 20760 (Rejected (Some 500)) ''t1'' 30 example_tracker)) ''t1''
       \<noteq> Some 30"
  by (simp add: updateProgress_def Let_def format_ymd_examples example_tracker_def)

subsection \<open>The progress bar\<close>
















subsection \<open>Today's progress of every task\<close>

lemma fold_upd_other:
  "k \<notin> fst ` set kvs \<Longrightarrow> fold (\<lambda>(taskId, p) m. m(taskId \<mapsto> p)) kvs m k = m k"
  by (induction kvs arbitrary: m) (auto split: prod.splits)

lemma fold_upd_dom:
  "dom (fold (\<lambda>(taskId, p) m. m(taskId \<mapsto> p)) kvs m) = dom m \<union> fst ` set kvs"
  by (induction kvs arbitrary: m) (auto split: prod.splits)

lemma fold_upd_last:
  assumes "i < length kvs"
    and "\<forall>j < length kvs. i < j \<longrightarrow> fst (kvs ! j) \<noteq> fst (kvs ! i)"
  shows "fold (\<lambda>(taskId, p) m. m(taskId \<mapsto> p)) kvs m (fst (kvs ! i)) = Some (snd (kvs ! i))"
  using assms
proof (induction kvs arbitrary: m i)
  case Nil
  then show ?case by simp
next
  case (Cons kv kvs)
  show ?case
  proof (cases i)
    case 0
    have "fst kv \<notin> fst ` set kvs"
    proof
      assume "fst kv \<in> fst ` set kvs"
      then obtain j where j: "j < length kvs" "fst (kvs ! j) = fst kv"
        by (auto simp: in_set_conv_nth)
      with Cons.prems(2) [rule_format, of "Suc j"] 0 show False by simp
    qed
    then have "fold (\<lambda>(taskId, p) m. m(taskId \<mapsto> p)) kvs (m(fst kv \<mapsto> snd kv)) (fst kv)
        = (m(fst kv \<mapsto> snd kv)) (fst kv)"
      by (rule fold_upd_other)
    then have "fold (\<lambda>(taskId, p) m. m(taskId \<mapsto> p)) (kv # kvs) m (fst kv) = Some (snd kv)"
      by (simp add: case_prod_beta)
    with 0 show ?thesis by (simp only: nth_Cons_0)
  next
    case (Suc i')
    with Cons.prems have i': "i' < length kvs" by simp
    have later: "\<forall>j < length kvs. i' < j \<longrightarrow> fst (kvs ! j) \<noteq> fst (kvs ! i')"
    proof (intro allI impI)
      fix j assume "j < length kvs" "i' < j"
      with Cons.prems(2) [rule_format, of "Suc j"] Suc show "fst (kvs ! j) \<noteq> fst (kvs ! i')"
        by simp
    qed
    from Cons.IH [OF i' later] Suc show ?thesis by simp
  qed
qed

text \<open>
  Claim C8. \<open>fetchTodayProgress\<close> issues exactly one request per task, for the progress
  history of that task, in the order of the task list, and sets the state once, after
  every request has settled, to a map whose keys are exactly the ids of the tasks. The
  value of a task is the progress value of the entry of its history dated today, 0 when
  the history has no such entry, and 0 when its request failed; it depends on the
  answer to the request of that task alone, so a failure for one task leaves the values
  of the others as they are. (Were two tasks to share an id, the key would hold the
  value of the later one; the statement is made for a task that no later task shares
  its id with, which is every task when ids are distinct.)
\<close>

theorem fetchTodayProgress_map:
  "(let n = length (tasks_lt st);
        r = fetchTodayProgress now resp st;
        today_value = (\<lambda>i. case resp i of
                             Resolved dat \<Rightarrow>
                               (case find (\<lambda>entry. date_progress entry = format_ymd now) dat of
                                  Some todayEntry \<Rightarrow> progress_value todayEntry
                                | None \<Rightarrow> 0)
                           | Rejected status \<Rightarrow> 0)
    in requests r = map (\<lambda>task. GET (''/progress-entries/'' @ id_task task)) (tasks_lt st)
     \<and> length (requests r) = n
     \<and> notices r = []
     \<and> tasks_lt (state r) = tasks_lt st
     \<and> dom (todayProgress (state r)) = id_task ` set (tasks_lt st)
     \<and> (\<forall>i < n. (\<forall>j < n. i < j \<longrightarrow> id_task (tasks_lt st ! j) \<noteq> id_task (tasks_lt st ! i)) \<longrightarrow>
            todayProgress (state r) (id_task (tasks_lt st ! i)) = Some (today_value i)))"
proof -
  let ?n = "length (tasks_lt st)"
  let ?val = "\<lambda>i. case resp i of
                   Resolved dat \<Rightarrow>
                     (case find (\<lambda>entry. date_progress entry = format_ymd now) dat of
                        Some todayEntry \<Rightarrow> progress_value todayEntry
                      | None \<Rightarrow> 0)
                 | Rejected status \<Rightarrow> 0"
  let ?g = "\<lambda>(i, task).
               case resp i of
                 Resolved dat \<Rightarrow>
                   (case find (\<lambda>entry. date_progress entry = format_ymd now) dat of
                      Some todayEntry \<Rightarrow> (id_task task, progress_value todayEntry)
                    | None \<Rightarrow> (id_task task, 0))
               | Rejected status \<Rightarrow> (id_task task, 0)"
  let ?res = "map ?g (enumerate 0 (tasks_lt st))"
  let ?r = "fetchTodayProgress now resp st"
  have g: "?g = (\<lambda>(i, task). (id_task task, ?val i))"
    by (auto simp: fun_eq_iff split: response.splits option.splits)
  have len: "length ?res = ?n" by simp
  have nth: "?res ! i = (id_task (tasks_lt st ! i), ?val i)" if "i < ?n" for i
    unfolding g using that by (simp add: nth_enumerate_eq)
  have keys: "fst ` set ?res = id_task ` set (tasks_lt st)"
  proof -
    have "map fst ?res = map id_task (tasks_lt st)"
      unfolding g by (rule nth_equalityI) (simp_all add: nth_enumerate_eq)
    then have "set (map fst ?res) = set (map id_task (tasks_lt st))" by simp
    then show ?thesis by (simp only: set_map)
  qed
  have tp: "todayProgress (state ?r) = fold (\<lambda>(taskId, p) m. m(taskId \<mapsto> p)) ?res Map.empty"
    by (simp add: fetchTodayProgress_def Let_def)
  have req: "requests ?r = map (\<lambda>task. GET (''/progress-entries/'' @ id_task task)) (tasks_lt st)"
    by (simp add: fetchTodayProgress_def Let_def)
  have nts: "notices ?r = []" by (simp add: fetchTodayProgress_def Let_def)
  have tsk: "tasks_lt (state ?r) = tasks_lt st" by (simp add: fetchTodayProgress_def Let_def)
  have dm: "dom (todayProgress (state ?r)) = id_task ` set (tasks_lt st)"
    unfolding tp fold_upd_dom keys by simp
  have vals: "todayProgress (state ?r) (id_task (tasks_lt st ! i)) = Some (?val i)"
    if i: "i < ?n"
      and last: "\<forall>j < ?n. i < j \<longrightarrow> id_task (tasks_lt st ! j) \<noteq> id_task (tasks_lt st ! i)"
    for i
  proof -
    have i': "i < length ?res" using i len by simp
    have "\<forall>j < length ?res. i < j \<longrightarrow> fst (?res ! j) \<noteq> fst (?res ! i)"
    proof (intro allI impI)
      fix j assume j: "j < length ?res" "i < j"
      then have "j < ?n" using len by simp
      with last j i show "fst (?res ! j) \<noteq> fst (?res ! i)"
        by (simp only: nth fst_conv) blast
    qed
    from fold_upd_last [OF i' this, of Map.empty] show ?thesis
      unfolding tp by (simp only: nth [OF i] fst_conv snd_conv)
  qed
  from req nts tsk dm vals show ?thesis
    unfolding Let_def by (simp only: length_map) blast
qed

text \<open>
  The theorem on the example: the history of the first task has an entry of 30 dated
  today, the request for the second task fails with status 500.
\<close>

theorem fetchTodayProgress_map_witness:
  "requests (fetchTodayProgress 20760 example_answers example_tracker) =
     [GET ''/progress-entries/t1'', GET ''/progress-entries/t2'']
   \<and> dom (todayProgress (state (fetchTodayProgress 20760 example_answers example_tracker)))
       = {''t1'', ''t2''}
   \<and> todayProgress (state (fetchTodayProgress 20760 example_answers example_tracker)) ''t1''
       = Some 30
   \<and> todayProgress (state (fetchTodayProgress 20760 example_answers example_tracker)) ''t2''
       = Some 0"
proof -
  let ?r = "fetchTodayProgress 20760 example_answers example_tracker"
  let ?ts = "[example_read, example_run]"
  have ts: "tasks_lt example_tracker = ?ts" by (simp add: example_tracker_def)
  have ids: "id_task example_read = ''t1''" "id_task example_run = ''t2''"
    by (simp_all add: example_read_def example_run_def)
  note w = fetchTodayProgress_map [of example_tracker 20760 example_answers, unfolded Let_def ts]
  from w have req: "requests ?r = [GET ''/progress-entries/t1'', GET ''/progress-entries/t2'']"
    by (simp add: ids)
  from w have dm: "dom (todayProgress (state ?r)) = {''t1'', ''t2''}"
    by (simp add: ids)
  from w have vals: "\<forall>i < length ?ts.
      (\<forall>j < length ?ts. i < j \<longrightarrow> id_task (?ts ! j) \<noteq> id_task (?ts ! i)) \<longrightarrow>
      todayProgress (state ?r) (id_task (?ts ! i)) =
        Some (case example_answers i of
                Resolved dat \<Rightarrow>
                  (case find (\<lambda>entry. date_progress entry = format_ymd 20760) dat of
                     Some todayEntry \<Rightarrow> progress_value todayEntry
                   | None \<Rightarrow> 0)
              | Rejected status \<Rightarrow> 0)"
    by blast
  have h0: "\<forall>j < length ?ts. 0 < j \<longrightarrow> id_task (?ts ! j) \<noteq> id_task (?ts ! 0)"
  proof (intro allI impI)
    fix j assume "j < length ?ts" "0 < j"
    then have "j = 1" by simp
    then show "id_task (?ts ! j) \<noteq> id_task (?ts ! 0)" by (simp add: ids)
  qed
  have h1: "\<forall>j < length ?ts. 1 < j \<longrightarrow> id_task (?ts ! j) \<noteq> id_task (?ts ! 1)"
    by simp
  from vals [THEN spec, of 0, THEN mp, THEN mp, OF _ h0]
  have v0: "todayProgress (state ?r) ''t1'' = Some 30"
    by (simp add: ids example_answers_def format_ymd_examples)
  from vals [THEN spec, of 1, THEN mp, THEN mp, OF _ h1]
  have v1: "todayProgress (state ?r) ''t2'' = Some 0"
    by (simp add: ids example_answers_def)
  from req dm v0 v1 show ?thesis by simp
qed

end
